theory Spec2Isabelle
  imports Main
begin

section \<open>The style fetcher of citeproc-node (lib/cslFetcher.js)\<close>

text \<open>
  The module keeps one object, \<open>cslFetcher\<close>, with two hashes of short names that are
  filled once by \<open>init\<close>, and three operations on a request: \<open>processStyleIdentifier\<close>
  (pure), \<open>resolveStyle\<close> and \<open>fetchStyle\<close> (both report through a callback and may
  read one file).  The embedding below passes the state explicitly: every operation takes
  the fetcher object and the request and returns both, together with the list of callback
  invocations it made and the list of files it asked \<open>fs.readFile\<close> for.

  Three things the module uses are not part of it and are taken as parameters:
  \<^item> Node's \<open>url.parse\<close>, a function from strings to parsed URLs;
  \<^item> the file system, as a function from file names to either an error or the content;
  \<^item> the preparation and parsing of a dependent style by \<open>jsdom\<close>, as a function from
    the file's text to the \<open>rel\<close> and \<open>href\<close> attributes of its \<open>link\<close> elements.
  The general theorems hold for every choice of the three.
\<close>

subsection \<open>JavaScript objects used as hashes\<close>

text \<open>
  \<open>cslShortNames\<close> and \<open>cslDependentShortNames\<close> are object literals \<open>{}\<close>.  The
  values the code stores in them are \<open>true\<close> and strings.  A lookup \<open>obj[key]\<close> that
  finds no own property continues in \<open>Object.prototype\<close>, so for the property names
  listed in \<open>object_prototype_keys\<close> it yields a function (or, for \<open>__proto__\<close>, the
  prototype object): a value that is neither \<open>undefined\<close>, nor \<open>true\<close>, nor a string.
  An assignment \<open>obj['__proto__'] = v\<close> of a primitive \<open>v\<close> is ignored.
\<close>

datatype jsval = JTrue | JStr string

type_synonym jsobj = "string \<rightharpoonup> jsval"

datatype lookup = Undefined | Own jsval | Inherited

definition object_prototype_keys :: "string list" where
  "object_prototype_keys =
     [''constructor'', ''toString'', ''toLocaleString'', ''valueOf'', ''hasOwnProperty'',
      ''isPrototypeOf'', ''propertyIsEnumerable'', ''__proto__'', ''__defineGetter__'',
      ''__defineSetter__'', ''__lookupGetter__'', ''__lookupSetter__'']"

definition js_get :: "jsobj \<Rightarrow> string \<Rightarrow> lookup" where
  "js_get obj k =
     (if k = ''__proto__'' then Inherited
      else case obj k of
             Some v \<Rightarrow> Own v
           | None \<Rightarrow> if k \<in> set object_prototype_keys then Inherited else Undefined)"

definition js_set :: "jsobj \<Rightarrow> string \<Rightarrow> jsval \<Rightarrow> jsobj" where
  "js_set obj k v = (if k = ''__proto__'' then obj else obj(k \<mapsto> v))"

text \<open>The own keys of a hash: the names the hash has recorded.\<close>

definition has_own :: "jsobj \<Rightarrow> string \<Rightarrow> bool" where
  "has_own obj k \<longleftrightarrow> k \<noteq> ''__proto__'' \<and> obj k \<noteq> None"

text \<open>
  A property key that is \<open>undefined\<close> is converted to the string \<open>undefined\<close>, both in
  \<open>obj[key]\<close> and in a string concatenation.
\<close>

definition key_of :: "string option \<Rightarrow> string" where
  "key_of k = (case k of None \<Rightarrow> ''undefined'' | Some s \<Rightarrow> s)"

subsection \<open>Parsed URLs and style identifiers\<close>

text \<open>
  The fields of the object \<open>url.parse\<close> returns that matter here.  \<open>None\<close> stands for
  a field that is \<open>undefined\<close> or \<open>null\<close>.  \<open>processStyleIdentifier\<close> adds the field
  \<open>shortName\<close> to that object, or leaves it without one.
\<close>

record parsedUrl =
  protocol :: "string option"
  host :: "string option"
  pathname :: "string option"
  search :: "string option"
  fragment :: "string option"

record urlObj =
  parsed :: parsedUrl
  shortName :: "string option"

type_synonym url_parser = "string \<Rightarrow> parsedUrl"

definition processStyleIdentifier :: "url_parser \<Rightarrow> string \<Rightarrow> string + urlObj" where
  "processStyleIdentifier parse style =
     (let urlObj = parse style in
      if host urlObj = None \<or> host urlObj = Some [] then
        Inr \<lparr>parsed = parse (''http://www.zotero.org/styles/'' @ style),
             shortName = Some style\<rparr>
      else if host urlObj = Some ''www.zotero.org'' then
        (case pathname urlObj of
           None \<Rightarrow> Inl (''Invalid www.zotero.org URL for style: '' @ style)
         | Some pn \<Rightarrow>
             if take 8 pn \<noteq> ''/styles/''
             then Inl (''Invalid www.zotero.org URL for style: '' @ style)
             else Inr \<lparr>parsed = urlObj, shortName = Some (drop 8 pn)\<rparr>)
      else
        Inr \<lparr>parsed = urlObj, shortName = map_option (drop 8) (pathname urlObj)\<rparr>)"

text \<open>
  A request keeps in \<open>styleUrlObj\<close> whatever \<open>processStyleIdentifier\<close> returned, so
  the field can hold the error string.  Reading \<open>host\<close> or \<open>shortName\<close> from a string
  gives \<open>undefined\<close>.
\<close>

definition host_of :: "string + urlObj \<Rightarrow> string option" where
  "host_of v = (case v of Inl _ \<Rightarrow> None | Inr u \<Rightarrow> host (parsed u))"

definition shortName_of :: "string + urlObj \<Rightarrow> string option" where
  "shortName_of v = (case v of Inl _ \<Rightarrow> None | Inr u \<Rightarrow> shortName u)"

subsection \<open>A reduced model of \<open>url.parse\<close>\<close>

text \<open>
  Used for concrete inputs only.  It follows the steps of Node's parser: an optional
  protocol \<open>[a-zA-Z0-9.+-]+:\<close>; a host, up to the first of \<open>/ ? ; #\<close>, when the protocol
  is followed by \<open>//\<close> or is not one of the slashed protocols; then the fragment from
  the first \<open>#\<close>, the query from the first \<open>?\<close>, and what is left as the path name.
  It leaves out user and port parts, case folding, the check of host labels and the
  percent-escaping of unsafe characters, so it is exact only on inputs without them.
\<close>

definition protocolChars :: string where
  "protocolChars = ''abcdefghijklmnopqrstuvwxyzABCDEFGHIJKLMNOPQRSTUVWXYZ0123456789.+-''"

definition slashedProtocol :: "string list" where
  "slashedProtocol = [''http:'', ''https:'', ''ftp:'', ''gopher:'', ''file:'']"

definition hostlessProtocol :: "string list" where
  "hostlessProtocol = [''javascript:'']"

definition nonHostChars :: string where
  "nonHostChars = ''/?;#''"

definition url_parse :: url_parser where
  "url_parse url =
     (let p = takeWhile (\<lambda>c. c \<in> set protocolChars) url;
          afterp = dropWhile (\<lambda>c. c \<in> set protocolChars) url;
          hasProto = (p \<noteq> [] \<and> take 1 afterp = '':'');
          proto = p @ '':'';
          rest0 = (if hasProto then drop 1 afterp else url);
          hostless = (hasProto \<and> proto \<in> set hostlessProtocol);
          slashes = (hasProto \<and> take 2 rest0 = ''//'' \<and> \<not> hostless);
          rest1 = (if slashes then drop 2 rest0 else rest0);
          hasHost = (\<not> hostless \<and> (slashes \<or> (hasProto \<and> proto \<notin> set slashedProtocol)));
          h = takeWhile (\<lambda>c. c \<notin> set nonHostChars) rest1;
          rest2 = (if hasHost then dropWhile (\<lambda>c. c \<notin> set nonHostChars) rest1 else rest1);
          beforeHash = takeWhile (\<lambda>c. c \<noteq> CHR ''#'') rest2;
          hashPart = dropWhile (\<lambda>c. c \<noteq> CHR ''#'') rest2;
          path = takeWhile (\<lambda>c. c \<noteq> CHR ''?'') beforeHash;
          searchPart = dropWhile (\<lambda>c. c \<noteq> CHR ''?'') beforeHash
      in \<lparr>protocol = (if hasProto then Some proto else None),
          host = (if hasHost then Some h else None),
          pathname =
            (if path \<noteq> [] then Some path
             else if hasProto \<and> proto \<in> set slashedProtocol \<and> hasHost \<and> h \<noteq> [] then Some ''/''
             else None),
          search = (if searchPart \<noteq> [] then Some searchPart else None),
          fragment = (if hashPart \<noteq> [] then Some hashPart else None)\<rparr>)"

subsection \<open>The fetcher object and its initialisation\<close>

text \<open>
  The configuration has the fields \<open>localesPath\<close> and \<open>cslPath\<close>; the latter is
  \<open>cslPath_cfg\<close> here, since the fetcher object has a field of the same name.  The
  fetcher's \<open>_cache\<close> is read by \<open>getCachedStyle\<close> only, which none of the
  operations below calls, and is left out.
\<close>

record config =
  localesPath :: string
  cslPath_cfg :: string

record cslFetcher =
  cslPath :: string
  cslDir :: "string list"
  cslShortNames :: jsobj
  cslDependentDir :: "string list"
  cslDependentShortNames :: jsobj

text \<open>
  \<open>filename.substr(-4)\<close> is the last four characters of the name, or the whole name
  when it is shorter; \<open>filename.slice(0, -4)\<close> is the name without its last four
  characters, or the empty string when it is shorter.
\<close>

definition substr_neg4 :: "string \<Rightarrow> string" where
  "substr_neg4 filename = drop (length filename - 4) filename"

definition slice_0_neg4 :: "string \<Rightarrow> string" where
  "slice_0_neg4 filename = take (length filename - 4) filename"

text \<open>The loop \<open>for (i = 0; i < len; i++)\<close> over a directory listing.\<close>

fun recordShortNames :: "string list \<Rightarrow> jsobj \<Rightarrow> jsobj" where
  "recordShortNames [] shortNames = shortNames"
| "recordShortNames (filename # dir) shortNames =
     recordShortNames dir
       (if substr_neg4 filename = ''.csl''
        then js_set shortNames (slice_0_neg4 filename) JTrue
        else shortNames)"

text \<open>
  \<open>fs.readdirSync\<close> returns the listing or throws; \<open>init\<close> does not catch, so the
  exception (\<open>Inl\<close>) leaves \<open>init\<close>.
\<close>

type_synonym readdir = "string \<Rightarrow> string + string list"

definition default_config :: config where
  "default_config = \<lparr>localesPath = ''./csl-locales'', cslPath_cfg = ''./csl''\<rparr>"

definition init :: "readdir \<Rightarrow> config option \<Rightarrow> string + cslFetcher" where
  "init readdirSync config =
     (let cfg = (case config of None \<Rightarrow> default_config | Some c \<Rightarrow> c) in
      case readdirSync (cslPath_cfg cfg) of
        Inl e \<Rightarrow> Inl e
      | Inr dir \<Rightarrow>
          (case readdirSync (cslPath_cfg cfg @ ''/dependent'') of
             Inl e \<Rightarrow> Inl e
           | Inr ddir \<Rightarrow>
               Inr \<lparr>cslPath = cslPath_cfg cfg,
                    cslDir = dir,
                    cslShortNames = recordShortNames dir Map.empty,
                    cslDependentDir = ddir,
                    cslDependentShortNames = recordShortNames ddir Map.empty\<rparr>))"

subsection \<open>Requests, callbacks and results\<close>

record postObj =
  styleXml :: string

text \<open>
  \<open>postedStyle\<close> is read only for its truth value.  \<open>postObj\<close> may be missing;
  \<open>cslXml\<close> is unset until a style has been fetched.
\<close>

record zcreq =
  styleUrlObj :: "string + urlObj"
  postedStyle :: bool
  postObj :: "postObj option"
  cslXml :: "string option"

text \<open>
  What a callback is called with: \<open>null\<close> (\<open>None\<close>), a string, the object
  \<open>{statusCode, message}\<close>, the error of a failed read, or a caught exception.  The
  callback itself is the caller's; it is taken to return normally.
\<close>

datatype cb_error =
    ErrString string
  | ErrStatus nat string
  | ErrRead string
  | ErrThrown string

type_synonym cb_arg = "cb_error option"

record result =
  fetcher :: cslFetcher
  request :: zcreq
  calls :: "cb_arg list"
  reads :: "string list"

text \<open>The file system: a read gives an error (\<open>Inl\<close>, by its message) or the content.\<close>

type_synonym readfile = "string \<Rightarrow> string + string"

subsection \<open>readDependent\<close>

text \<open>
  The parameter \<open>linkEls\<close> stands for the two regular-expression replacements, the trim,
  the \<open>jsdom\<close> parse and \<open>getElementsByTagName('link')\<close>: it gives, in document order,
  the \<open>rel\<close> and the \<open>href\<close> attribute of every \<open>link\<close> element, as the strings
  \<open>getAttribute\<close> returns.  The result \<open>None\<close> is the source's \<open>false\<close>.
\<close>

type_synonym link_parser = "string \<Rightarrow> (string \<times> string) list"

fun firstParent :: "(string \<times> string) list \<Rightarrow> string option" where
  "firstParent [] = None"
| "firstParent ((rel, href) # els) =
     (if rel = ''independent-parent'' then Some href else firstParent els)"

definition readDependent :: "link_parser \<Rightarrow> string \<Rightarrow> string option" where
  "readDependent linkEls xml = firstParent (linkEls xml)"

subsection \<open>resolveStyle\<close>

text \<open>
  The function passed to \<open>fs.readFile\<close>.  It closes over \<open>shortName\<close> (here
  \<open>name\<close>) and the request, and reads and writes the fetcher object as it is when the
  read has finished.
\<close>

definition resolveStyle_onRead ::
  "url_parser \<Rightarrow> link_parser \<Rightarrow> string option \<Rightarrow> cslFetcher \<Rightarrow> zcreq \<Rightarrow> string + string
     \<Rightarrow> cslFetcher \<times> zcreq \<times> cb_arg list" where
  "resolveStyle_onRead parse linkEls name F zc res =
     (case res of
        Inl err \<Rightarrow> (F, zc, [Some (ErrRead err)])
      | Inr data \<Rightarrow>
          (case readDependent linkEls data of
             None \<Rightarrow> (F, zc, [Some (ErrString ''Error resolving dependent style'')])
           | Some parentStyle \<Rightarrow>
               (let F' = F\<lparr>cslDependentShortNames :=
                            js_set (cslDependentShortNames F) (key_of name)
                              (JStr parentStyle)\<rparr>
                in case processStyleIdentifier parse parentStyle of
                     Inl ret \<Rightarrow> (F', zc, [Some (ErrString ret)])
                   | Inr _ \<Rightarrow>
                       (F', zc\<lparr>styleUrlObj := processStyleIdentifier parse parentStyle\<rparr>,
                        [None]))))"

definition resolveStyle ::
  "url_parser \<Rightarrow> link_parser \<Rightarrow> readfile \<Rightarrow> cslFetcher \<Rightarrow> zcreq \<Rightarrow> result" where
  "resolveStyle parse linkEls readFile F zc =
     (let name = shortName_of (styleUrlObj zc) in
      if js_get (cslShortNames F) (key_of name) = Own JTrue then
        \<lparr>fetcher = F, request = zc, calls = [None], reads = []\<rparr>
      else if js_get (cslDependentShortNames F) (key_of name) \<noteq> Undefined then
        (case js_get (cslDependentShortNames F) (key_of name) of
           Own (JStr parentStyle) \<Rightarrow>
             \<lparr>fetcher = F,
              request = zc\<lparr>styleUrlObj := processStyleIdentifier parse parentStyle\<rparr>,
              calls = [None], reads = []\<rparr>
         | _ \<Rightarrow>
             (let filename = cslPath F @ ''/dependent/'' @ key_of name @ ''.csl'';
                  (F', zc', cs) =
                    resolveStyle_onRead parse linkEls name F zc (readFile filename)
              in \<lparr>fetcher = F', request = zc', calls = cs, reads = [filename]\<rparr>))
      else
        \<lparr>fetcher = F, request = zc,
         calls = [Some (ErrStatus 404 ''Style not found'')], reads = []\<rparr>)"

subsection \<open>fetchStyle\<close>

definition fetchStyle_onRead ::
  "string \<Rightarrow> zcreq \<Rightarrow> string + string \<Rightarrow> zcreq \<times> cb_arg list" where
  "fetchStyle_onRead filename zc res =
     (case res of
        Inl err \<Rightarrow>
          (zc, [Some (ErrString (''Error loading style from file '' @ filename @ '': '' @ err))])
      | Inr data \<Rightarrow> (zc\<lparr>cslXml := Some data\<rparr>, [None]))"

text \<open>
  Inside the \<open>try\<close> block only \<open>zcreq.postObj.styleXml\<close> can throw, when \<open>postObj\<close> is
  missing; the \<open>catch\<close> clause passes the exception to the callback.  Where the source
  reaches the end of the function without calling the callback, \<open>calls\<close> is empty.
\<close>

definition fetchStyle :: "readfile \<Rightarrow> cslFetcher \<Rightarrow> zcreq \<Rightarrow> result" where
  "fetchStyle readFile F zc =
     (if postedStyle zc then
        (case postObj zc of
           None \<Rightarrow>
             \<lparr>fetcher = F, request = zc, calls = [Some (ErrThrown ''TypeError'')], reads = []\<rparr>
         | Some po \<Rightarrow>
             \<lparr>fetcher = F, request = zc\<lparr>cslXml := Some (styleXml po)\<rparr>,
              calls = [None], reads = []\<rparr>)
      else if host_of (styleUrlObj zc) = Some ''www.zotero.org'' then
        (let k = key_of (shortName_of (styleUrlObj zc)) in
         if js_get (cslShortNames F) k = Own JTrue then
           (let filename = cslPath F @ ''/'' @ k @ ''.csl'';
                (zc', cs) = fetchStyle_onRead filename zc (readFile filename)
            in \<lparr>fetcher = F, request = zc', calls = cs, reads = [filename]\<rparr>)
         else if js_get (cslDependentShortNames F) k \<noteq> Undefined then
           \<lparr>fetcher = F, request = zc, calls = [], reads = []\<rparr>
         else
           \<lparr>fetcher = F, request = zc, calls = [], reads = []\<rparr>)
      else
        \<lparr>fetcher = F, request = zc,
         calls = [Some (ErrString ''Non-Zotero styles are not supported at this time'')],
         reads = []\<rparr>)"

subsection \<open>Sequences of operations\<close>

text \<open>
  The fetcher object is shared by all requests.  An operation is one call of
  \<open>resolveStyle\<close> or \<open>fetchStyle\<close>, on some request and with the file system as it is
  at that moment; \<open>run\<close> gives the fetcher object after a sequence of them, each taken
  together with the continuation of its read.
\<close>

datatype operation = Resolve readfile zcreq | Fetch readfile zcreq

fun step :: "url_parser \<Rightarrow> link_parser \<Rightarrow> cslFetcher \<Rightarrow> operation \<Rightarrow> cslFetcher" where
  "step parse linkEls F (Resolve readFile zc) = fetcher (resolveStyle parse linkEls readFile F zc)"
| "step parse linkEls F (Fetch readFile zc) = fetcher (fetchStyle readFile F zc)"

definition run :: "url_parser \<Rightarrow> link_parser \<Rightarrow> cslFetcher \<Rightarrow> operation list \<Rightarrow> cslFetcher" where
  "run parse linkEls F ops = foldl (step parse linkEls) F ops"

text \<open>No name is recorded in both hashes.\<close>

definition disjoint_registries :: "cslFetcher \<Rightarrow> bool" where
  "disjoint_registries F \<longleftrightarrow>
     (\<forall>k. \<not> (has_own (cslShortNames F) k \<and> has_own (cslDependentShortNames F) k))"

subsection \<open>A small installation\<close>

text \<open>
  Two independent styles, three dependent ones: \<open>mla-variant\<close> points at \<open>mla\<close>,
  \<open>chain\<close> points at \<open>mla-variant\<close>, and \<open>bad-variant\<close> names a parent on the
  canonical host outside \<open>/styles/\<close>.
\<close>

definition example_readdir :: readdir where
  "example_readdir path =
     (if path = ''./csl'' then Inr [''apa.csl'', ''mla.csl'', ''README.md'', ''dependent'']
      else if path = ''./csl/dependent''
        then Inr [''mla-variant.csl'', ''chain.csl'', ''bad-variant.csl'']
      else Inl ''ENOENT'')"

definition example_readFile :: readfile where
  "example_readFile filename =
     (if filename = ''./csl/apa.csl'' then Inr ''<style>apa</style>''
      else if filename = ''./csl/mla.csl'' then Inr ''<style>mla</style>''
      else if filename = ''./csl/dependent/mla-variant.csl'' then Inr ''<link href=mla>''
      else if filename = ''./csl/dependent/chain.csl'' then Inr ''<link href=mla-variant>''
      else if filename = ''./csl/dependent/bad-variant.csl'' then Inr ''<link href=oops>''
      else Inl ''ENOENT'')"

definition example_linkEls :: link_parser where
  "example_linkEls xml =
     (if xml = ''<link href=mla>''
        then [(''self'', ''http://www.zotero.org/styles/mla-variant''),
              (''independent-parent'', ''mla'')]
      else if xml = ''<link href=mla-variant>'' then [(''independent-parent'', ''mla-variant'')]
      else if xml = ''<link href=oops>''
        then [(''independent-parent'', ''http://www.zotero.org/oops'')]
      else [])"

definition example_fetcher :: cslFetcher where
  "example_fetcher =
     \<lparr>cslPath = ''./csl'',
      cslDir = [''apa.csl'', ''mla.csl'', ''README.md'', ''dependent''],
      cslShortNames = [''apa'' \<mapsto> JTrue, ''mla'' \<mapsto> JTrue],
      cslDependentDir = [''mla-variant.csl'', ''chain.csl'', ''bad-variant.csl''],
      cslDependentShortNames =
        [''mla-variant'' \<mapsto> JTrue, ''chain'' \<mapsto> JTrue, ''bad-variant'' \<mapsto> JTrue]\<rparr>"

text \<open>A file system where every read fails.\<close>

definition empty_readFile :: readfile where
  "empty_readFile filename = Inl ''ENOENT''"

text \<open>A request for a style given by the string \<open>style\<close>, with nothing posted.\<close>

definition example_request :: "string \<Rightarrow> zcreq" where
  "example_request style =
     \<lparr>styleUrlObj = processStyleIdentifier url_parse style,
      postedStyle = False, postObj = None, cslXml = None\<rparr>"

text \<open>
  An installation where \<open>apa.csl\<close> is present both in the style directory and in its
  \<open>dependent\<close> subdirectory.
\<close>

definition overlap_readdir :: readdir where
  "overlap_readdir path =
     (if path = ''./csl'' then Inr [''apa.csl'', ''dependent'']
      else if path = ''./csl/dependent'' then Inr [''apa.csl'']
      else Inl ''ENOENT'')"

definition overlap_fetcher :: cslFetcher where
  "overlap_fetcher =
     \<lparr>cslPath = ''./csl'',
      cslDir = [''apa.csl'', ''dependent''],
      cslShortNames = [''apa'' \<mapsto> JTrue],
      cslDependentDir = [''apa.csl''],
      cslDependentShortNames = [''apa'' \<mapsto> JTrue]\<rparr>"

definition overlap_readFile :: readfile where
  "overlap_readFile filename =
     (if filename = ''./csl/apa.csl'' then Inr ''<style>apa</style>''
      else if filename = ''./csl/dependent/apa.csl'' then Inr ''<link href=mla>''
      else Inl ''ENOENT'')"

section \<open>Properties\<close>

subsection \<open>The reduced parser on the inputs used below\<close>

lemmas url_parse_eval =
  url_parse_def protocolChars_def slashedProtocol_def hostlessProtocol_def nonHostChars_def
  Let_def

lemma url_parse_canonical:
  assumes "CHR ''?'' \<notin> set s" and "CHR ''#'' \<notin> set s"
  shows "host (url_parse (''http://www.zotero.org/styles/'' @ s)) = Some ''www.zotero.org''"
    and "pathname (url_parse (''http://www.zotero.org/styles/'' @ s)) = Some (''/styles/'' @ s)"
proof -
  have h: "takeWhile (\<lambda>c. c \<noteq> CHR ''#'') s = s"
    using assms by auto
  have q: "takeWhile (\<lambda>c. c \<noteq> CHR ''?'') s = s"
    using assms by auto
  show "host (url_parse (''http://www.zotero.org/styles/'' @ s)) = Some ''www.zotero.org''"
    by (simp add: url_parse_eval)
  show "pathname (url_parse (''http://www.zotero.org/styles/'' @ s)) = Some (''/styles/'' @ s)"
    by (simp add: url_parse_eval h q)
qed

lemma url_parse_apa:
  "url_parse ''apa'' =
     \<lparr>protocol = None, host = None, pathname = Some ''apa'', search = None, fragment = None\<rparr>"
  by (simp add: url_parse_eval)

lemma url_parse_canonical_apa:
  "url_parse ''http://www.zotero.org/styles/apa'' =
     \<lparr>protocol = Some ''http:'', host = Some ''www.zotero.org'',
      pathname = Some ''/styles/apa'', search = None, fragment = None\<rparr>"
  by (simp add: url_parse_eval)

lemma url_parse_query:
  "url_parse ''a?b'' =
     \<lparr>protocol = None, host = None, pathname = Some ''a'', search = Some ''?b'',
      fragment = None\<rparr>"
  by (simp add: url_parse_eval)

lemma url_parse_canonical_query:
  "url_parse ''http://www.zotero.org/styles/a?b'' =
     \<lparr>protocol = Some ''http:'', host = Some ''www.zotero.org'',
      pathname = Some ''/styles/a'', search = Some ''?b'', fragment = None\<rparr>"
  by (simp add: url_parse_eval)

lemma url_parse_example_ab:
  "url_parse ''http://example.com/ab'' =
     \<lparr>protocol = Some ''http:'', host = Some ''example.com'',
      pathname = Some ''/ab'', search = None, fragment = None\<rparr>"
  by (simp add: url_parse_eval)

lemma url_parse_foo_bar:
  "url_parse ''foo:bar'' =
     \<lparr>protocol = Some ''foo:'', host = Some ''bar'',
      pathname = None, search = None, fragment = None\<rparr>"
  by (simp add: url_parse_eval)

subsection \<open>processStyleIdentifier\<close>

text \<open>
  C10.  When the input parses with a host that is neither empty nor \<open>www.zotero.org\<close>,
  \<open>processStyleIdentifier\<close> returns no error: the result is the parsed object, with
  \<open>shortName\<close> set to the path name without its first eight characters when there is a
  path name, whatever it begins with, and with no \<open>shortName\<close> when there is none.
\<close>

theorem processStyleIdentifier_other_host:
  assumes "host (parse style) = Some h" and "h \<noteq> []" and "h \<noteq> ''www.zotero.org''"
  shows "processStyleIdentifier parse style =
           Inr \<lparr>parsed = parse style,
                shortName = (case pathname (parse style) of
                               None \<Rightarrow> None
                             | Some pn \<Rightarrow> Some (drop 8 pn))\<rparr>"
  using assms by (simp add: processStyleIdentifier_def Let_def split: option.splits)

text \<open>
  The path name \<open>/ab\<close> has three characters and gives the empty short name; \<open>foo:bar\<close>
  has the host \<open>bar\<close> and no path name, and gets no short name.
\<close>

theorem processStyleIdentifier_other_host_witness:
  "processStyleIdentifier url_parse ''http://example.com/ab'' =
     Inr \<lparr>parsed = url_parse ''http://example.com/ab'', shortName = Some []\<rparr>
   \<and> processStyleIdentifier url_parse ''foo:bar'' =
     Inr \<lparr>parsed = url_parse ''foo:bar'', shortName = None\<rparr>"
  using processStyleIdentifier_other_host
          [of url_parse "''http://example.com/ab''" "''example.com''"]
        processStyleIdentifier_other_host [of url_parse "''foo:bar''" "''bar''"]
  by (simp add: url_parse_example_ab url_parse_foo_bar)

text \<open>
  C3, as amended.  A string \<open>s\<close> that parses without a host is its own short name.
  When the parser returns the canonical host for the canonical URL built from \<open>s\<close>,
  the short name of that URL is \<open>s\<close> if and only if the parser returns the path name
  \<open>/styles/\<close> followed by \<open>s\<close>.
\<close>

theorem processStyleIdentifier_roundtrip:
  "(host (parse s) = None \<or> host (parse s) = Some []
      \<longrightarrow> shortName_of (processStyleIdentifier parse s) = Some s)
   \<and> (host (parse (''http://www.zotero.org/styles/'' @ s)) = Some ''www.zotero.org''
      \<longrightarrow> (shortName_of (processStyleIdentifier parse (''http://www.zotero.org/styles/'' @ s))
              = Some s
            \<longleftrightarrow> pathname (parse (''http://www.zotero.org/styles/'' @ s))
                  = Some (''/styles/'' @ s)))"
proof -
  let ?url = "''http://www.zotero.org/styles/'' @ s"
  have short: "host (parse s) = None \<or> host (parse s) = Some []
      \<longrightarrow> shortName_of (processStyleIdentifier parse s) = Some s"
    by (simp add: processStyleIdentifier_def shortName_of_def Let_def)
  have canon: "shortName_of (processStyleIdentifier parse ?url) = Some s
               \<longleftrightarrow> pathname (parse ?url) = Some (''/styles/'' @ s)"
    if h: "host (parse ?url) = Some ''www.zotero.org''"
  proof (cases "pathname (parse ?url)")
    case None
    then show ?thesis
      using h by (simp add: processStyleIdentifier_def shortName_of_def Let_def)
  next
    case (Some pn)
    have split: "take 8 pn @ drop 8 pn = pn" by (rule append_take_drop_id)
    have eq: "take 8 pn = ''/styles/'' \<and> drop 8 pn = s \<longleftrightarrow> pn = ''/styles/'' @ s"
    proof
      assume "take 8 pn = ''/styles/'' \<and> drop 8 pn = s"
      with split show "pn = ''/styles/'' @ s" by metis
    next
      assume "pn = ''/styles/'' @ s"
      then show "take 8 pn = ''/styles/'' \<and> drop 8 pn = s" by simp
    qed
    show ?thesis
      using h Some eq
      by (auto simp add: processStyleIdentifier_def shortName_of_def Let_def)
  qed
  show ?thesis using short canon by blast
qed

theorem processStyleIdentifier_roundtrip_witness:
  "host (url_parse ''apa'') = None
   \<and> shortName_of (processStyleIdentifier url_parse ''apa'') = Some ''apa''
   \<and> host (url_parse ''http://www.zotero.org/styles/apa'') = Some ''www.zotero.org''
   \<and> pathname (url_parse ''http://www.zotero.org/styles/apa'') = Some ''/styles/apa''
   \<and> shortName_of (processStyleIdentifier url_parse ''http://www.zotero.org/styles/apa'')
       = Some ''apa''"
  using processStyleIdentifier_roundtrip [of url_parse "''apa''"]
  by (simp add: url_parse_apa url_parse_canonical_apa)

text \<open>
  The claim as stated fails for \<open>a?b\<close>: it parses without a host, and its canonical URL
  has the path name \<open>/styles/a\<close>, hence the short name \<open>a\<close>.
\<close>

theorem processStyleIdentifier_roundtrip_counterexample:
  "host (url_parse ''a?b'') = None
   \<and> shortName_of (processStyleIdentifier url_parse ''a?b'') = Some ''a?b''
   \<and> shortName_of (processStyleIdentifier url_parse (''http://www.zotero.org/styles/'' @ ''a?b''))
       = Some ''a''
   \<and> shortName_of (processStyleIdentifier url_parse (''http://www.zotero.org/styles/'' @ ''a?b''))
       \<noteq> Some ''a?b''"
  by (simp add: processStyleIdentifier_def shortName_of_def Let_def url_parse_query
        url_parse_canonical_query)

subsection \<open>Registry initialisation\<close>

lemma substr_slice_csl:
  "substr_neg4 filename = ''.csl'' \<and> slice_0_neg4 filename = k \<longleftrightarrow> filename = k @ ''.csl''"
proof
  assume a: "substr_neg4 filename = ''.csl'' \<and> slice_0_neg4 filename = k"
  have "take (length filename - 4) filename @ drop (length filename - 4) filename = filename"
    by (rule append_take_drop_id)
  with a show "filename = k @ ''.csl''"
    by (simp add: substr_neg4_def slice_0_neg4_def)
next
  assume "filename = k @ ''.csl''"
  then show "substr_neg4 filename = ''.csl'' \<and> slice_0_neg4 filename = k"
    by (simp add: substr_neg4_def slice_0_neg4_def)
qed

text \<open>The loop records exactly the base names of the \<open>.csl\<close> entries, each as \<open>true\<close>.\<close>

lemma recordShortNames_lookup:
  "recordShortNames dir m k =
     (if k \<noteq> ''__proto__'' \<and> k @ ''.csl'' \<in> set dir then Some JTrue else m k)"
proof (induction dir arbitrary: m)
  case Nil
  then show ?case by simp
next
  case (Cons filename dir)
  show ?case
  proof (cases "substr_neg4 filename = ''.csl''")
    case True
    then have f: "filename = slice_0_neg4 filename @ ''.csl''"
      using substr_slice_csl [of filename "slice_0_neg4 filename"] by simp
    have "k @ ''.csl'' = filename \<longleftrightarrow> k = slice_0_neg4 filename"
      using f by (metis append_same_eq)
    then show ?thesis using True Cons.IH by (auto simp add: js_set_def)
  next
    case False
    then have "k @ ''.csl'' \<noteq> filename"
      using substr_slice_csl [of filename k] by auto
    then show ?thesis using False Cons.IH by auto
  qed
qed

lemma has_own_recordShortNames:
  "has_own (recordShortNames dir Map.empty) k \<longleftrightarrow> k \<noteq> ''__proto__'' \<and> k @ ''.csl'' \<in> set dir"
  by (simp add: has_own_def recordShortNames_lookup)

lemma js_get_recordShortNames:
  "has_own (recordShortNames dir Map.empty) k \<Longrightarrow>
     js_get (recordShortNames dir Map.empty) k = Own JTrue"
  by (simp add: has_own_def js_get_def recordShortNames_lookup split: if_splits)

lemma not_true_recordShortNames:
  "js_get (recordShortNames dir Map.empty) k \<noteq> Own JTrue \<Longrightarrow>
     \<not> has_own (recordShortNames dir Map.empty) k"
  using js_get_recordShortNames by blast

lemma init_fields:
  assumes "init readdirSync config = Inr F"
  shows "cslShortNames F = recordShortNames (cslDir F) Map.empty"
    and "cslDependentShortNames F = recordShortNames (cslDependentDir F) Map.empty"
  using assms by (auto simp add: init_def Let_def split: sum.splits)

lemma init_example: "init example_readdir None = Inr example_fetcher"
  by (simp add: init_def example_readdir_def default_config_def example_fetcher_def
        substr_neg4_def slice_0_neg4_def js_set_def)

lemma example_cslShortNames:
  "cslShortNames example_fetcher = recordShortNames (cslDir example_fetcher) Map.empty"
  using init_fields(1) [OF init_example] .

lemmas example_eval =
  example_request_def example_fetcher_def example_readFile_def example_linkEls_def
  processStyleIdentifier_def url_parse_eval shortName_of_def host_of_def key_of_def
  js_get_def js_set_def object_prototype_keys_def readDependent_def has_own_def

subsection \<open>The branches of resolveStyle\<close>

lemma branch_independent:
  assumes "js_get (cslShortNames F) (key_of (shortName_of (styleUrlObj zc))) = Own JTrue"
  shows "resolveStyle parse linkEls readFile F zc =
           \<lparr>fetcher = F, request = zc, calls = [None], reads = []\<rparr>"
  using assms by (simp add: resolveStyle_def Let_def)

lemma branch_cached:
  assumes "js_get (cslShortNames F) (key_of (shortName_of (styleUrlObj zc))) \<noteq> Own JTrue"
      and "js_get (cslDependentShortNames F) (key_of (shortName_of (styleUrlObj zc)))
             = Own (JStr p)"
  shows "resolveStyle parse linkEls readFile F zc =
           \<lparr>fetcher = F, request = zc\<lparr>styleUrlObj := processStyleIdentifier parse p\<rparr>,
            calls = [None], reads = []\<rparr>"
  using assms by (simp add: resolveStyle_def Let_def)

lemma branch_not_found:
  assumes "js_get (cslShortNames F) (key_of (shortName_of (styleUrlObj zc))) \<noteq> Own JTrue"
      and "js_get (cslDependentShortNames F) (key_of (shortName_of (styleUrlObj zc)))
             = Undefined"
  shows "resolveStyle parse linkEls readFile F zc =
           \<lparr>fetcher = F, request = zc, calls = [Some (ErrStatus 404 ''Style not found'')],
            reads = []\<rparr>"
  using assms by (simp add: resolveStyle_def Let_def)

lemma branch_read:
  assumes "js_get (cslShortNames F) (key_of (shortName_of (styleUrlObj zc))) \<noteq> Own JTrue"
      and "js_get (cslDependentShortNames F) (key_of (shortName_of (styleUrlObj zc))) = Own JTrue
           \<or> js_get (cslDependentShortNames F) (key_of (shortName_of (styleUrlObj zc)))
               = Inherited"
  shows "resolveStyle parse linkEls readFile F zc =
           (let filename =
                  cslPath F @ ''/dependent/'' @ key_of (shortName_of (styleUrlObj zc)) @ ''.csl'';
                r = resolveStyle_onRead parse linkEls (shortName_of (styleUrlObj zc)) F zc
                      (readFile filename)
            in \<lparr>fetcher = fst r, request = fst (snd r), calls = snd (snd r),
                reads = [filename]\<rparr>)"
  using assms by (auto simp add: resolveStyle_def Let_def split: prod.splits)

lemma resolveStyle_onRead_fetcher:
  "fst (resolveStyle_onRead parse linkEls name F zc res) = F
   \<or> (\<exists>p. fst (resolveStyle_onRead parse linkEls name F zc res) =
            F\<lparr>cslDependentShortNames := js_set (cslDependentShortNames F) (key_of name) (JStr p)\<rparr>)"
  by (auto simp add: resolveStyle_onRead_def Let_def split: sum.splits option.splits)

text \<open>
  What one call can do to the fetcher object: nothing, or one entry written in the
  dependent hash, under the request's key, which the independent hash does not map to
  \<open>true\<close> and the dependent hash does not map to a string.
\<close>

lemma resolveStyle_fetcher:
  "fetcher (resolveStyle parse linkEls readFile F zc) = F
   \<or> (\<exists>p. js_get (cslShortNames F) (key_of (shortName_of (styleUrlObj zc))) \<noteq> Own JTrue
          \<and> (\<forall>q. js_get (cslDependentShortNames F) (key_of (shortName_of (styleUrlObj zc)))
                    \<noteq> Own (JStr q))
          \<and> fetcher (resolveStyle parse linkEls readFile F zc) =
              F\<lparr>cslDependentShortNames :=
                   js_set (cslDependentShortNames F) (key_of (shortName_of (styleUrlObj zc)))
                     (JStr p)\<rparr>)"
proof -
  let ?k = "key_of (shortName_of (styleUrlObj zc))"
  consider (indep) "js_get (cslShortNames F) ?k = Own JTrue"
    | (cached) p where "js_get (cslShortNames F) ?k \<noteq> Own JTrue"
        "js_get (cslDependentShortNames F) ?k = Own (JStr p)"
    | (unknown) "js_get (cslShortNames F) ?k \<noteq> Own JTrue"
        "js_get (cslDependentShortNames F) ?k = Undefined"
    | (read) "js_get (cslShortNames F) ?k \<noteq> Own JTrue"
        "js_get (cslDependentShortNames F) ?k = Own JTrue
         \<or> js_get (cslDependentShortNames F) ?k = Inherited"
    by (metis lookup.exhaust jsval.exhaust)
  then show ?thesis
  proof cases
    case indep
    then show ?thesis by (simp add: branch_independent)
  next
    case cached
    then show ?thesis by (simp add: branch_cached)
  next
    case unknown
    then show ?thesis by (simp add: branch_not_found)
  next
    case read
    have nostr: "\<forall>q. js_get (cslDependentShortNames F) ?k \<noteq> Own (JStr q)"
      using read(2) by auto
    show ?thesis
      using resolveStyle_onRead_fetcher
              [of parse linkEls "shortName_of (styleUrlObj zc)" F zc
                  "readFile (cslPath F @ ''/dependent/'' @ ?k @ ''.csl'')"]
            read(1) nostr
      by (auto simp add: branch_read [OF read] Let_def)
  qed
qed

lemma resolveStyle_cslShortNames:
  "cslShortNames (fetcher (resolveStyle parse linkEls readFile F zc)) = cslShortNames F"
  using resolveStyle_fetcher [of parse linkEls readFile F zc] by auto

lemma resolveStyle_calls_once:
  "length (calls (resolveStyle parse linkEls readFile F zc)) = 1"
  by (simp add: resolveStyle_def resolveStyle_onRead_def Let_def
           split: lookup.splits jsval.splits sum.splits option.splits prod.splits)

lemma fetchStyle_fetcher: "fetcher (fetchStyle readFile F zc) = F"
  by (simp add: fetchStyle_def Let_def split: option.splits prod.splits)

lemma js_get_js_set_other:
  "js_get m k = Own (JStr p) \<Longrightarrow> (\<forall>q. js_get m k' \<noteq> Own (JStr q))
     \<Longrightarrow> js_get (js_set m k' w) k = Own (JStr p)"
  by (auto simp add: js_get_def js_set_def split: if_splits option.splits)

lemma resolveStyle_keeps_string:
  assumes "js_get (cslDependentShortNames F) k = Own (JStr p)"
  shows "js_get (cslDependentShortNames (fetcher (resolveStyle parse linkEls readFile F zc))) k
           = Own (JStr p)"
  using resolveStyle_fetcher [of parse linkEls readFile F zc] assms
  by (auto simp add: js_get_js_set_other)

lemma step_keeps_string:
  assumes "js_get (cslDependentShortNames F) k = Own (JStr p)"
  shows "js_get (cslDependentShortNames (step parse linkEls F opn)) k = Own (JStr p)"
  using assms by (cases opn) (simp_all add: resolveStyle_keeps_string fetchStyle_fetcher)

lemma step_cslShortNames: "cslShortNames (step parse linkEls F opn) = cslShortNames F"
  by (cases opn) (simp_all add: resolveStyle_cslShortNames fetchStyle_fetcher)

lemma run_keeps_string:
  "js_get (cslDependentShortNames F) k = Own (JStr p) \<Longrightarrow>
     js_get (cslDependentShortNames (run parse linkEls F ops)) k = Own (JStr p)"
  unfolding run_def by (induction ops arbitrary: F) (simp_all add: step_keeps_string)

lemma run_cslShortNames: "cslShortNames (run parse linkEls F ops) = cslShortNames F"
  unfolding run_def by (induction ops arbitrary: F) (simp_all add: step_cslShortNames)

subsection \<open>resolveStyle on an independent style\<close>

text \<open>
  C4.  When the independent hash is as \<open>init\<close> built it from a directory listing and
  records the request's short name, one call of \<open>resolveStyle\<close> calls back once with
  \<open>null\<close>, asks for no file, and leaves the request and the fetcher object as they
  were.
\<close>

theorem resolveStyle_independent:
  assumes "cslShortNames F = recordShortNames dir Map.empty"
      and "has_own (cslShortNames F) (key_of (shortName_of (styleUrlObj zc)))"
  shows "resolveStyle parse linkEls readFile F zc =
           \<lparr>fetcher = F, request = zc, calls = [None], reads = []\<rparr>"
  using assms by (simp add: branch_independent js_get_recordShortNames)

theorem resolveStyle_independent_witness:
  "resolveStyle url_parse example_linkEls example_readFile example_fetcher
     (example_request ''apa'') =
   \<lparr>fetcher = example_fetcher, request = example_request ''apa'', calls = [None], reads = []\<rparr>"
proof -
  have "has_own (cslShortNames example_fetcher)
          (key_of (shortName_of (styleUrlObj (example_request ''apa''))))"
    by (simp add: example_eval)
  then show ?thesis
    using resolveStyle_independent [OF example_cslShortNames] by simp
qed

subsection \<open>resolveStyle on a name in neither hash\<close>

text \<open>
  A name that neither hash records and that \<open>Object.prototype\<close> does not define gets the
  404 object.
\<close>

lemma resolveStyle_unknown:
  assumes "\<not> has_own (cslShortNames F) (key_of (shortName_of (styleUrlObj zc)))"
      and "\<not> has_own (cslDependentShortNames F) (key_of (shortName_of (styleUrlObj zc)))"
      and "key_of (shortName_of (styleUrlObj zc)) \<notin> set object_prototype_keys"
  shows "resolveStyle parse linkEls readFile F zc =
           \<lparr>fetcher = F, request = zc, calls = [Some (ErrStatus 404 ''Style not found'')],
            reads = []\<rparr>"
proof -
  let ?k = "key_of (shortName_of (styleUrlObj zc))"
  have p: "?k \<noteq> ''__proto__''"
    using assms(3) by (auto simp add: object_prototype_keys_def)
  have "js_get (cslShortNames F) ?k = Undefined"
    using assms(1,3) p by (simp add: js_get_def has_own_def)
  moreover have "js_get (cslDependentShortNames F) ?k = Undefined"
    using assms(2,3) p by (simp add: js_get_def has_own_def)
  ultimately show ?thesis by (simp add: branch_not_found)
qed

text \<open>
  C6.  The claim asks for the 404 failure for every short name that is in neither
  registry.  For the short name \<open>constructor\<close>, which neither hash of the small
  installation records, both lookups find the inherited property: the first test fails
  on \<open>=== true\<close>, the second test (\<open>typeof ... != 'undefined'\<close>) succeeds, and
  \<open>resolveStyle\<close> asks for the file \<open>./csl/dependent/constructor.csl\<close> and passes on
  the error of the read instead of the 404 object.
\<close>

theorem resolveStyle_prototype_name:
  "\<not> has_own (cslShortNames example_fetcher) ''constructor''
   \<and> \<not> has_own (cslDependentShortNames example_fetcher) ''constructor''
   \<and> shortName_of (styleUrlObj (example_request ''constructor'')) = Some ''constructor''
   \<and> resolveStyle url_parse example_linkEls example_readFile example_fetcher
        (example_request ''constructor'') =
      \<lparr>fetcher = example_fetcher, request = example_request ''constructor'',
       calls = [Some (ErrRead ''ENOENT'')], reads = [''./csl/dependent/constructor.csl'']\<rparr>"
  by (simp add: resolveStyle_def resolveStyle_onRead_def example_eval)

subsection \<open>resolveStyle on an unresolved dependent style\<close>

text \<open>
  C2, as amended.  When the short name is an unresolved dependent style, its file is
  read, a parent is found in it and the parent fails normalisation, \<open>resolveStyle\<close>
  calls back once with the error string of the normalisation and leaves the request as it
  was; the parent string has been stored in the dependent hash before the normalisation,
  so the entry of the short name is then that string.
\<close>

theorem resolveStyle_normalization_failure:
  assumes "js_get (cslShortNames F) (key_of (shortName_of (styleUrlObj zc))) \<noteq> Own JTrue"
      and "js_get (cslDependentShortNames F) (key_of (shortName_of (styleUrlObj zc))) = Own JTrue"
      and "readFile (cslPath F @ ''/dependent/'' @ key_of (shortName_of (styleUrlObj zc)) @ ''.csl'')
             = Inr data"
      and "readDependent linkEls data = Some parentStyle"
      and "processStyleIdentifier parse parentStyle = Inl ret"
  shows "resolveStyle parse linkEls readFile F zc =
           \<lparr>fetcher = F\<lparr>cslDependentShortNames :=
                          (cslDependentShortNames F)
                            (key_of (shortName_of (styleUrlObj zc)) \<mapsto> JStr parentStyle)\<rparr>,
            request = zc,
            calls = [Some (ErrString ret)],
            reads = [cslPath F @ ''/dependent/'' @ key_of (shortName_of (styleUrlObj zc))
                       @ ''.csl'']\<rparr>"
proof -
  have "key_of (shortName_of (styleUrlObj zc)) \<noteq> ''__proto__''"
    using assms(2) by (auto simp add: js_get_def)
  then show ?thesis
    using assms(3,4,5)
    by (simp add: branch_read [OF assms(1)] assms(2) resolveStyle_onRead_def
          Let_def js_set_def)
qed

theorem resolveStyle_normalization_failure_witness:
  "resolveStyle url_parse example_linkEls example_readFile example_fetcher
     (example_request ''bad-variant'') =
   \<lparr>fetcher = example_fetcher\<lparr>cslDependentShortNames :=
                   (cslDependentShortNames example_fetcher)
                     (''bad-variant'' \<mapsto> JStr ''http://www.zotero.org/oops'')\<rparr>,
    request = example_request ''bad-variant'',
    calls = [Some (ErrString
               ''Invalid www.zotero.org URL for style: http://www.zotero.org/oops'')],
    reads = [''./csl/dependent/bad-variant.csl'']\<rparr>"
proof -
  have k: "key_of (shortName_of (styleUrlObj (example_request ''bad-variant''))) = ''bad-variant''"
    by (simp add: example_eval)
  have a: "js_get (cslShortNames example_fetcher) ''bad-variant'' \<noteq> Own JTrue"
    by (simp add: example_eval)
  have b: "js_get (cslDependentShortNames example_fetcher) ''bad-variant'' = Own JTrue"
    by (simp add: example_eval)
  have c: "example_readFile (cslPath example_fetcher @ ''/dependent/'' @ ''bad-variant'' @ ''.csl'')
             = Inr ''<link href=oops>''"
    by (simp add: example_eval)
  have d: "readDependent example_linkEls ''<link href=oops>'' = Some ''http://www.zotero.org/oops''"
    by (simp add: example_eval)
  have e: "processStyleIdentifier url_parse ''http://www.zotero.org/oops'' =
             Inl ''Invalid www.zotero.org URL for style: http://www.zotero.org/oops''"
    by (simp add: example_eval)
  show ?thesis
    using resolveStyle_normalization_failure
            [of example_fetcher "example_request ''bad-variant''" example_readFile
                "''<link href=oops>''" example_linkEls "''http://www.zotero.org/oops''"
                url_parse
                "''Invalid www.zotero.org URL for style: http://www.zotero.org/oops''"]
          a b c d e
    by (simp add: k example_fetcher_def)
qed

text \<open>
  The claim as stated fails for \<open>bad-variant\<close>: the call fails with the normalisation
  error, and the entry of \<open>bad-variant\<close> has changed from \<open>true\<close> to the parent string.
\<close>

theorem resolveStyle_memo_on_failure_counterexample:
  "calls (resolveStyle url_parse example_linkEls example_readFile example_fetcher
            (example_request ''bad-variant'')) =
     [Some (ErrString ''Invalid www.zotero.org URL for style: http://www.zotero.org/oops'')]
   \<and> cslDependentShortNames example_fetcher ''bad-variant'' = Some JTrue
   \<and> cslDependentShortNames
        (fetcher (resolveStyle url_parse example_linkEls example_readFile example_fetcher
                    (example_request ''bad-variant''))) ''bad-variant''
       = Some (JStr ''http://www.zotero.org/oops'')"
  by (simp add: resolveStyle_def resolveStyle_onRead_def example_eval)

subsection \<open>The memo of resolved parents\<close>

lemma resolveStyle_first_success:
  assumes ni: "js_get (cslShortNames F) (key_of (shortName_of (styleUrlObj zc))) \<noteq> Own JTrue"
      and un: "js_get (cslDependentShortNames F) (key_of (shortName_of (styleUrlObj zc))) = Own JTrue"
      and ok: "calls (resolveStyle parse linkEls readFile F zc) = [None]"
  shows "\<exists>p. fetcher (resolveStyle parse linkEls readFile F zc) =
               F\<lparr>cslDependentShortNames :=
                    (cslDependentShortNames F)(key_of (shortName_of (styleUrlObj zc)) \<mapsto> JStr p)\<rparr>
             \<and> request (resolveStyle parse linkEls readFile F zc) =
                 zc\<lparr>styleUrlObj := processStyleIdentifier parse p\<rparr>
             \<and> reads (resolveStyle parse linkEls readFile F zc) =
                 [cslPath F @ ''/dependent/'' @ key_of (shortName_of (styleUrlObj zc)) @ ''.csl'']"
proof -
  have np: "key_of (shortName_of (styleUrlObj zc)) \<noteq> ''__proto__''"
    using un by (auto simp add: js_get_def)
  show ?thesis
    using ok np
    by (auto simp add: branch_read [OF ni] un resolveStyle_onRead_def Let_def js_set_def
          split: sum.splits option.splits)
qed

text \<open>
  C5, as amended.  Let \<open>k\<close> be a short name that the dependent hash records with the
  value \<open>true\<close> (unresolved; the name \<open>__proto__\<close> is never recorded) and that the
  independent hash does not record with the value \<open>true\<close>, and let a
  \<open>resolveStyle\<close> on it succeed.  Then the entry of \<open>k\<close> is a parent string
  \<open>p\<close>, and the request has been given the normalisation of \<open>p\<close>.  After any
  further sequence of \<open>resolveStyle\<close> and \<open>fetchStyle\<close> calls, each run to the end
  of its read's continuation before the next begins, on any requests and whatever the
  files then hold, the entry is still \<open>p\<close>, and a \<open>resolveStyle\<close> on \<open>k\<close> asks for
  no file, succeeds, changes nothing in the fetcher object and gives the request the
  normalisation of \<open>p\<close>.
\<close>

theorem resolveStyle_memoized:
  assumes ni: "js_get (cslShortNames F) k \<noteq> Own JTrue"
      and un: "js_get (cslDependentShortNames F) k = Own JTrue"
      and k: "key_of (shortName_of (styleUrlObj zc)) = k"
      and ok: "calls (resolveStyle parse linkEls readFile F zc) = [None]"
  shows "\<exists>p. js_get (cslDependentShortNames (fetcher (resolveStyle parse linkEls readFile F zc))) k
               = Own (JStr p)
           \<and> request (resolveStyle parse linkEls readFile F zc) =
               zc\<lparr>styleUrlObj := processStyleIdentifier parse p\<rparr>
           \<and> (\<forall>ops readFile' zc'.
                 js_get (cslDependentShortNames
                           (run parse linkEls
                              (fetcher (resolveStyle parse linkEls readFile F zc)) ops)) k
                   = Own (JStr p)
                 \<and> (key_of (shortName_of (styleUrlObj zc')) = k \<longrightarrow>
                      resolveStyle parse linkEls readFile'
                        (run parse linkEls (fetcher (resolveStyle parse linkEls readFile F zc)) ops)
                        zc' =
                      \<lparr>fetcher = run parse linkEls
                                   (fetcher (resolveStyle parse linkEls readFile F zc)) ops,
                       request = zc'\<lparr>styleUrlObj := processStyleIdentifier parse p\<rparr>,
                       calls = [None], reads = []\<rparr>))"
proof -
  let ?F1 = "fetcher (resolveStyle parse linkEls readFile F zc)"
  from resolveStyle_first_success [of F zc parse linkEls readFile] ni un k ok
  obtain p where F1: "?F1 = F\<lparr>cslDependentShortNames := (cslDependentShortNames F)(k \<mapsto> JStr p)\<rparr>"
    and req: "request (resolveStyle parse linkEls readFile F zc) =
                zc\<lparr>styleUrlObj := processStyleIdentifier parse p\<rparr>"
    by auto
  have np: "k \<noteq> ''__proto__''" using un by (auto simp add: js_get_def)
  have e1: "js_get (cslDependentShortNames ?F1) k = Own (JStr p)"
    using np by (simp add: F1 js_get_def)
  have later: "js_get (cslDependentShortNames (run parse linkEls ?F1 ops)) k = Own (JStr p)
      \<and> (key_of (shortName_of (styleUrlObj zc')) = k \<longrightarrow>
            resolveStyle parse linkEls readFile' (run parse linkEls ?F1 ops) zc' =
              \<lparr>fetcher = run parse linkEls ?F1 ops,
               request = zc'\<lparr>styleUrlObj := processStyleIdentifier parse p\<rparr>,
               calls = [None], reads = []\<rparr>)" for ops readFile' zc'
  proof -
    let ?F2 = "run parse linkEls ?F1 ops"
    have d: "js_get (cslDependentShortNames ?F2) k = Own (JStr p)"
      using e1 by (rule run_keeps_string)
    have "cslShortNames ?F2 = cslShortNames F"
      by (simp add: run_cslShortNames resolveStyle_cslShortNames)
    then have i: "js_get (cslShortNames ?F2) k \<noteq> Own JTrue" using ni by simp
    show ?thesis using d i by (auto simp add: branch_cached)
  qed
  show ?thesis using e1 req later by blast
qed

lemma example_resolve_mla_variant:
  "resolveStyle url_parse example_linkEls example_readFile example_fetcher
     (example_request ''mla-variant'') =
   \<lparr>fetcher = example_fetcher\<lparr>cslDependentShortNames :=
                   (cslDependentShortNames example_fetcher)(''mla-variant'' \<mapsto> JStr ''mla'')\<rparr>,
    request = (example_request ''mla-variant'')
                \<lparr>styleUrlObj := processStyleIdentifier url_parse ''mla''\<rparr>,
    calls = [None],
    reads = [''./csl/dependent/mla-variant.csl'']\<rparr>"
  by (simp add: resolveStyle_def resolveStyle_onRead_def example_eval)

text \<open>
  In the small installation: \<open>mla-variant\<close> is resolved once, then \<open>chain\<close> is
  resolved and \<open>mla\<close> is fetched, then \<open>mla-variant\<close> is resolved again with every
  file gone.
\<close>

theorem resolveStyle_memoized_witness:
  "request (resolveStyle url_parse example_linkEls example_readFile example_fetcher
              (example_request ''mla-variant'')) =
     (example_request ''mla-variant'')\<lparr>styleUrlObj := processStyleIdentifier url_parse ''mla''\<rparr>
   \<and> resolveStyle url_parse example_linkEls empty_readFile
        (run url_parse example_linkEls
           (fetcher (resolveStyle url_parse example_linkEls example_readFile example_fetcher
                       (example_request ''mla-variant'')))
           [Resolve example_readFile (example_request ''chain''),
            Fetch example_readFile (example_request ''mla'')])
        (example_request ''mla-variant'') =
      \<lparr>fetcher =
         run url_parse example_linkEls
           (fetcher (resolveStyle url_parse example_linkEls example_readFile example_fetcher
                       (example_request ''mla-variant'')))
           [Resolve example_readFile (example_request ''chain''),
            Fetch example_readFile (example_request ''mla'')],
       request = (example_request ''mla-variant'')
                   \<lparr>styleUrlObj := processStyleIdentifier url_parse ''mla''\<rparr>,
       calls = [None], reads = []\<rparr>"
proof -
  let ?r1 = "resolveStyle url_parse example_linkEls example_readFile example_fetcher
               (example_request ''mla-variant'')"
  have k: "key_of (shortName_of (styleUrlObj (example_request ''mla-variant''))) = ''mla-variant''"
    by (simp add: example_eval)
  have ni: "js_get (cslShortNames example_fetcher) ''mla-variant'' \<noteq> Own JTrue"
    by (simp add: example_eval)
  have un: "js_get (cslDependentShortNames example_fetcher) ''mla-variant'' = Own JTrue"
    by (simp add: example_eval)
  have ok: "calls ?r1 = [None]"
    by (simp add: example_resolve_mla_variant)
  have e: "js_get (cslDependentShortNames (fetcher ?r1)) ''mla-variant'' = Own (JStr ''mla'')"
    by (simp add: example_resolve_mla_variant js_get_def)
  from resolveStyle_memoized [OF ni un k ok]
  obtain p where p: "js_get (cslDependentShortNames (fetcher ?r1)) ''mla-variant'' = Own (JStr p)"
    and later: "\<And>ops readFile' zc'.
       key_of (shortName_of (styleUrlObj zc')) = ''mla-variant'' \<Longrightarrow>
       resolveStyle url_parse example_linkEls readFile'
         (run url_parse example_linkEls (fetcher ?r1) ops) zc' =
       \<lparr>fetcher = run url_parse example_linkEls (fetcher ?r1) ops,
        request = zc'\<lparr>styleUrlObj := processStyleIdentifier url_parse p\<rparr>,
        calls = [None], reads = []\<rparr>"
    by blast
  from p e have "p = ''mla''" by simp
  with later [OF k] show ?thesis
    by (simp add: example_resolve_mla_variant)
qed

text \<open>
  The claim as stated, for every dependent short name, fails in the second installation:
  \<open>apa\<close> is an unresolved entry of the dependent hash and its file names the parent
  \<open>mla\<close>, but the independent hash holds \<open>apa\<close> too and is tested first.  The call
  succeeds without a read, the request keeps its identifier, and the entry is still
  \<open>true\<close>: no parent is memoized, for this call or any later one.
\<close>

theorem resolveStyle_memoized_counterexample:
  "cslDependentShortNames overlap_fetcher ''apa'' = Some JTrue
   \<and> overlap_readFile ''./csl/dependent/apa.csl'' = Inr ''<link href=mla>''
   \<and> readDependent example_linkEls ''<link href=mla>'' = Some ''mla''
   \<and> shortName_of (styleUrlObj (example_request ''apa'')) = Some ''apa''
   \<and> resolveStyle url_parse example_linkEls overlap_readFile overlap_fetcher
        (example_request ''apa'') =
      \<lparr>fetcher = overlap_fetcher, request = example_request ''apa'', calls = [None],
       reads = []\<rparr>
   \<and> cslDependentShortNames
        (fetcher (resolveStyle url_parse example_linkEls overlap_readFile overlap_fetcher
                    (example_request ''apa''))) ''apa'' = Some JTrue"
proof -
  have r: "resolveStyle url_parse example_linkEls overlap_readFile overlap_fetcher
             (example_request ''apa'') =
           \<lparr>fetcher = overlap_fetcher, request = example_request ''apa'', calls = [None],
            reads = []\<rparr>"
    by (simp add: resolveStyle_def overlap_fetcher_def example_request_def
          processStyleIdentifier_def url_parse_eval shortName_of_def key_of_def js_get_def)
  have a: "cslDependentShortNames overlap_fetcher ''apa'' = Some JTrue"
    by (simp add: overlap_fetcher_def)
  have b: "overlap_readFile ''./csl/dependent/apa.csl'' = Inr ''<link href=mla>''"
    by (simp add: overlap_readFile_def)
  have c: "readDependent example_linkEls ''<link href=mla>'' = Some ''mla''"
    by (simp add: readDependent_def example_linkEls_def)
  have d: "shortName_of (styleUrlObj (example_request ''apa'')) = Some ''apa''"
    by (simp add: example_request_def processStyleIdentifier_def url_parse_eval
          shortName_of_def)
  show ?thesis using a b c d by (simp add: r)
qed

subsection \<open>One hop per call\<close>

text \<open>
  C8.  Let the short name of the request be a dependent style whose parent \<open>p\<close> is
  either memoized or found in its file, let \<open>p\<close> normalise to \<open>u\<close>, and let the short
  name of \<open>u\<close> be a dependent style itself.  Then one call of \<open>resolveStyle\<close> calls
  back once with \<open>null\<close> and sets the request's identifier to \<open>u\<close>; it asks for the
  file of the request's short name when that was unresolved and for no other file; and
  afterwards the short name of \<open>u\<close> is still a dependent style, with its entry as it was
  (unless it is the request's own short name).
\<close>

theorem resolveStyle_one_hop:
  assumes ni: "js_get (cslShortNames F) (key_of (shortName_of (styleUrlObj zc))) \<noteq> Own JTrue"
      and src: "js_get (cslDependentShortNames F) (key_of (shortName_of (styleUrlObj zc)))
                  = Own (JStr p)
                \<or> (js_get (cslDependentShortNames F) (key_of (shortName_of (styleUrlObj zc)))
                      = Own JTrue
                   \<and> readFile (cslPath F @ ''/dependent/''
                                 @ key_of (shortName_of (styleUrlObj zc)) @ ''.csl'') = Inr data
                   \<and> readDependent linkEls data = Some p)"
      and norm: "processStyleIdentifier parse p = Inr u"
      and pni: "js_get (cslShortNames F) (key_of (shortName u)) \<noteq> Own JTrue"
      and pdep: "js_get (cslDependentShortNames F) (key_of (shortName u)) = Own v"
  shows "request (resolveStyle parse linkEls readFile F zc) = zc\<lparr>styleUrlObj := Inr u\<rparr>
         \<and> calls (resolveStyle parse linkEls readFile F zc) = [None]
         \<and> reads (resolveStyle parse linkEls readFile F zc) =
             (if js_get (cslDependentShortNames F) (key_of (shortName_of (styleUrlObj zc)))
                   = Own JTrue
              then [cslPath F @ ''/dependent/'' @ key_of (shortName_of (styleUrlObj zc))
                      @ ''.csl'']
              else [])
         \<and> js_get (cslShortNames (fetcher (resolveStyle parse linkEls readFile F zc)))
               (key_of (shortName u)) \<noteq> Own JTrue
         \<and> (\<exists>v'. js_get (cslDependentShortNames (fetcher (resolveStyle parse linkEls readFile F zc)))
                    (key_of (shortName u)) = Own v')
         \<and> (key_of (shortName u) \<noteq> key_of (shortName_of (styleUrlObj zc)) \<longrightarrow>
               js_get (cslDependentShortNames (fetcher (resolveStyle parse linkEls readFile F zc)))
                 (key_of (shortName u)) = Own v)"
proof -
  let ?k = "key_of (shortName_of (styleUrlObj zc))"
  have pk: "key_of (shortName u) \<noteq> ''__proto__''"
    using pdep by (auto simp add: js_get_def)
  from src show ?thesis
  proof
    assume c: "js_get (cslDependentShortNames F) ?k = Own (JStr p)"
    then show ?thesis
      using norm pni pdep by (simp add: branch_cached [OF ni c])
  next
    assume f: "js_get (cslDependentShortNames F) ?k = Own JTrue
               \<and> readFile (cslPath F @ ''/dependent/'' @ ?k @ ''.csl'') = Inr data
               \<and> readDependent linkEls data = Some p"
    then have un: "js_get (cslDependentShortNames F) ?k = Own JTrue
                   \<or> js_get (cslDependentShortNames F) ?k = Inherited" by simp
    show ?thesis
      using f norm pni pdep pk
      by (auto simp add: branch_read [OF ni un] resolveStyle_onRead_def Let_def
            js_get_def js_set_def split: if_splits option.splits)
  qed
qed

text \<open>
  In the small installation \<open>chain\<close> points at \<open>mla-variant\<close>, itself dependent and
  unresolved: one call reads \<open>chain.csl\<close> only and leaves \<open>mla-variant\<close> unresolved.
\<close>

theorem resolveStyle_one_hop_witness:
  "request (resolveStyle url_parse example_linkEls example_readFile example_fetcher
              (example_request ''chain'')) =
     (example_request ''chain'')
       \<lparr>styleUrlObj := Inr \<lparr>parsed = url_parse ''http://www.zotero.org/styles/mla-variant'',
                              shortName = Some ''mla-variant''\<rparr>\<rparr>
   \<and> calls (resolveStyle url_parse example_linkEls example_readFile example_fetcher
               (example_request ''chain'')) = [None]
   \<and> reads (resolveStyle url_parse example_linkEls example_readFile example_fetcher
               (example_request ''chain'')) = [''./csl/dependent/chain.csl'']
   \<and> js_get (cslDependentShortNames
               (fetcher (resolveStyle url_parse example_linkEls example_readFile example_fetcher
                           (example_request ''chain'')))) ''mla-variant'' = Own JTrue"
proof -
  let ?zc = "example_request ''chain''"
  let ?u = "\<lparr>parsed = url_parse ''http://www.zotero.org/styles/mla-variant'',
             shortName = Some ''mla-variant''\<rparr>"
  have k: "key_of (shortName_of (styleUrlObj ?zc)) = ''chain''"
    by (simp add: example_eval)
  have ku: "key_of (shortName ?u) = ''mla-variant''"
    by (simp add: key_of_def)
  have cp: "cslPath example_fetcher = ''./csl''"
    by (simp add: example_fetcher_def)
  have un: "js_get (cslDependentShortNames example_fetcher) ''chain'' = Own JTrue"
    by (simp add: example_eval)
  have ni: "js_get (cslShortNames example_fetcher) (key_of (shortName_of (styleUrlObj ?zc)))
              \<noteq> Own JTrue"
    by (simp add: k) (simp add: example_eval)
  have src: "js_get (cslDependentShortNames example_fetcher)
               (key_of (shortName_of (styleUrlObj ?zc))) = Own (JStr ''mla-variant'')
             \<or> (js_get (cslDependentShortNames example_fetcher)
                   (key_of (shortName_of (styleUrlObj ?zc))) = Own JTrue
                \<and> example_readFile (cslPath example_fetcher @ ''/dependent/''
                     @ key_of (shortName_of (styleUrlObj ?zc)) @ ''.csl'')
                    = Inr ''<link href=mla-variant>''
                \<and> readDependent example_linkEls ''<link href=mla-variant>''
                    = Some ''mla-variant'')"
    by (simp add: k un cp) (simp add: example_readFile_def example_linkEls_def readDependent_def)
  have norm: "processStyleIdentifier url_parse ''mla-variant'' = Inr ?u"
    by (simp add: processStyleIdentifier_def url_parse_eval)
  have pni: "js_get (cslShortNames example_fetcher) (key_of (shortName ?u)) \<noteq> Own JTrue"
    by (simp add: ku) (simp add: example_eval)
  have pdep: "js_get (cslDependentShortNames example_fetcher) (key_of (shortName ?u)) = Own JTrue"
    by (simp add: ku) (simp add: example_eval)
  note hop = resolveStyle_one_hop
            [where F = example_fetcher and zc = ?zc and readFile = example_readFile
               and linkEls = example_linkEls and parse = url_parse
               and p = "''mla-variant''" and data = "''<link href=mla-variant>''"
               and u = ?u and v = JTrue, OF ni src norm pni pdep, unfolded k ku]
  show ?thesis
    using hop by (simp add: un cp)
qed

subsection \<open>fetchStyle\<close>

text \<open>
  C7.  When the request has \<open>postedStyle\<close> set and carries the posted object,
  \<open>fetchStyle\<close> stores the posted stylesheet, unchanged, as the request's \<open>cslXml\<close>
  and calls back once with \<open>null\<close>; it asks for no file, and the result does not depend
  on the request's identifier, on the hashes or on the file system.
\<close>

theorem fetchStyle_posted:
  assumes "postedStyle zc" and "postObj zc = Some po"
  shows "fetchStyle readFile F zc =
           \<lparr>fetcher = F, request = zc\<lparr>cslXml := Some (styleXml po)\<rparr>, calls = [None],
            reads = []\<rparr>"
  using assms by (simp add: fetchStyle_def)

theorem fetchStyle_posted_witness:
  "fetchStyle example_readFile example_fetcher
     ((example_request ''apa'')\<lparr>postedStyle := True, postObj := Some \<lparr>styleXml = ''<style/>''\<rparr>\<rparr>) =
   \<lparr>fetcher = example_fetcher,
    request = (example_request ''apa'')
                \<lparr>postedStyle := True, postObj := Some \<lparr>styleXml = ''<style/>''\<rparr>,
                 cslXml := Some ''<style/>''\<rparr>,
    calls = [None], reads = []\<rparr>"
  using fetchStyle_posted
          [of "(example_request ''apa'')
                 \<lparr>postedStyle := True, postObj := Some \<lparr>styleXml = ''<style/>''\<rparr>\<rparr>"
              "\<lparr>styleXml = ''<style/>''\<rparr>" example_readFile example_fetcher]
  by simp

text \<open>How often \<open>fetchStyle\<close> calls back, on every input.\<close>

lemma fetchStyle_calls:
  "length (calls (fetchStyle readFile F zc)) =
     (if \<not> postedStyle zc \<and> host_of (styleUrlObj zc) = Some ''www.zotero.org''
         \<and> js_get (cslShortNames F) (key_of (shortName_of (styleUrlObj zc))) \<noteq> Own JTrue
      then 0 else 1)"
  by (simp add: fetchStyle_def fetchStyle_onRead_def Let_def
           split: lookup.splits jsval.splits sum.splits option.splits prod.splits)

lemma fetchStyle_independent_example:
  "fetchStyle example_readFile example_fetcher (example_request ''mla'') =
     \<lparr>fetcher = example_fetcher,
      request = (example_request ''mla'')\<lparr>cslXml := Some ''<style>mla</style>''\<rparr>,
      calls = [None], reads = [''./csl/mla.csl'']\<rparr>"
  by (simp add: fetchStyle_def fetchStyle_onRead_def example_eval)

text \<open>
  C1.  The claim asks for exactly one call of the callback on every request.  In the
  small installation, the request for \<open>chain\<close> after one \<open>resolveStyle\<close> names
  \<open>mla-variant\<close> on the canonical host, a dependent style: \<open>fetchStyle\<close> returns
  without calling back.  The same happens for a request that names \<open>mla-variant\<close>
  directly, and for the name \<open>nosuch\<close>, which is in neither hash.
\<close>

theorem fetchStyle_no_callback:
  "calls (resolveStyle url_parse example_linkEls example_readFile example_fetcher
            (example_request ''chain'')) = [None]
   \<and> calls (fetchStyle example_readFile
              (fetcher (resolveStyle url_parse example_linkEls example_readFile example_fetcher
                          (example_request ''chain'')))
              (request (resolveStyle url_parse example_linkEls example_readFile example_fetcher
                          (example_request ''chain'')))) = []
   \<and> host_of (styleUrlObj (example_request ''mla-variant'')) = Some ''www.zotero.org''
   \<and> has_own (cslDependentShortNames example_fetcher) ''mla-variant''
   \<and> fetchStyle example_readFile example_fetcher (example_request ''mla-variant'') =
       \<lparr>fetcher = example_fetcher, request = example_request ''mla-variant'',
        calls = [], reads = []\<rparr>
   \<and> fetchStyle example_readFile example_fetcher (example_request ''nosuch'') =
       \<lparr>fetcher = example_fetcher, request = example_request ''nosuch'',
        calls = [], reads = []\<rparr>"
proof -
  have r: "resolveStyle url_parse example_linkEls example_readFile example_fetcher
             (example_request ''chain'') =
           \<lparr>fetcher = example_fetcher\<lparr>cslDependentShortNames :=
                          (cslDependentShortNames example_fetcher)
                            (''chain'' \<mapsto> JStr ''mla-variant'')\<rparr>,
            request = (example_request ''chain'')
                        \<lparr>styleUrlObj := processStyleIdentifier url_parse ''mla-variant''\<rparr>,
            calls = [None],
            reads = [''./csl/dependent/chain.csl'']\<rparr>"
    by (simp add: resolveStyle_def resolveStyle_onRead_def example_eval)
  have a: "calls (fetchStyle example_readFile
              (example_fetcher\<lparr>cslDependentShortNames :=
                          (cslDependentShortNames example_fetcher)
                            (''chain'' \<mapsto> JStr ''mla-variant'')\<rparr>)
              ((example_request ''chain'')
                        \<lparr>styleUrlObj := processStyleIdentifier url_parse ''mla-variant''\<rparr>)) = []"
    by (simp add: fetchStyle_def example_eval)
  have b: "host_of (styleUrlObj (example_request ''mla-variant'')) = Some ''www.zotero.org''
     \<and> has_own (cslDependentShortNames example_fetcher) ''mla-variant''
     \<and> fetchStyle example_readFile example_fetcher (example_request ''mla-variant'') =
         \<lparr>fetcher = example_fetcher, request = example_request ''mla-variant'',
          calls = [], reads = []\<rparr>
     \<and> fetchStyle example_readFile example_fetcher (example_request ''nosuch'') =
         \<lparr>fetcher = example_fetcher, request = example_request ''nosuch'',
          calls = [], reads = []\<rparr>"
    by (simp add: fetchStyle_def example_eval)
  show ?thesis using a b by (simp add: r)
qed

subsection \<open>The two hashes and their keys\<close>

lemma has_own_js_set:
  "has_own (js_set m k v) k' \<longleftrightarrow> has_own m k' \<or> (k' = k \<and> k \<noteq> ''__proto__'')"
  by (auto simp add: has_own_def js_set_def)

lemma not_true_not_own:
  assumes "cslShortNames F = recordShortNames dir Map.empty"
      and "js_get (cslShortNames F) k \<noteq> Own JTrue"
  shows "\<not> has_own (cslShortNames F) k"
  using assms not_true_recordShortNames by simp

lemma resolveStyle_disjoint:
  assumes sn: "cslShortNames F = recordShortNames dir Map.empty"
      and dj: "disjoint_registries F"
  shows "disjoint_registries (fetcher (resolveStyle parse linkEls readFile F zc))"
proof -
  let ?k = "key_of (shortName_of (styleUrlObj zc))"
  from resolveStyle_fetcher [of parse linkEls readFile F zc]
  show ?thesis
  proof
    assume "fetcher (resolveStyle parse linkEls readFile F zc) = F"
    then show ?thesis using dj by simp
  next
    assume "\<exists>p. js_get (cslShortNames F) ?k \<noteq> Own JTrue
              \<and> (\<forall>q. js_get (cslDependentShortNames F) ?k \<noteq> Own (JStr q))
              \<and> fetcher (resolveStyle parse linkEls readFile F zc) =
                  F\<lparr>cslDependentShortNames := js_set (cslDependentShortNames F) ?k (JStr p)\<rparr>"
    then obtain p where ni: "js_get (cslShortNames F) ?k \<noteq> Own JTrue"
      and eq: "fetcher (resolveStyle parse linkEls readFile F zc) =
                 F\<lparr>cslDependentShortNames := js_set (cslDependentShortNames F) ?k (JStr p)\<rparr>"
      by blast
    have "\<not> has_own (cslShortNames F) ?k"
      using sn ni by (rule not_true_not_own)
    then show ?thesis
      using dj by (auto simp add: eq disjoint_registries_def has_own_js_set)
  qed
qed

lemma step_disjoint:
  assumes "cslShortNames F = recordShortNames dir Map.empty" and "disjoint_registries F"
  shows "disjoint_registries (step parse linkEls F opn)"
  using assms by (cases opn) (simp_all add: resolveStyle_disjoint fetchStyle_fetcher)

lemma run_disjoint:
  "cslShortNames F = recordShortNames dir Map.empty \<Longrightarrow> disjoint_registries F \<Longrightarrow>
     disjoint_registries (run parse linkEls F ops)"
  unfolding run_def
proof (induction ops arbitrary: F)
  case Nil
  then show ?case by simp
next
  case (Cons opn ops)
  have "cslShortNames (step parse linkEls F opn) = recordShortNames dir Map.empty"
    using Cons.prems(1) by (simp add: step_cslShortNames)
  moreover have "disjoint_registries (step parse linkEls F opn)"
    using Cons.prems by (rule step_disjoint)
  ultimately show ?case using Cons.IH by simp
qed

text \<open>
  C9, as amended.  \<open>init\<close> reads the two listings independently of each other and does
  not compare them.  When \<open>init\<close> returns the fetcher object, the two hashes have no
  name in common exactly when no file name \<open>k.csl\<close> with \<open>k\<close> other than
  \<open>__proto__\<close> occurs in both listings (the name \<open>__proto__\<close> is never recorded, so
  \<open>__proto__.csl\<close> in both listings gives no common name); and when they have no name
  in common after \<open>init\<close>, they have none after any sequence of \<open>resolveStyle\<close> and
  \<open>fetchStyle\<close> calls.
\<close>

theorem init_disjoint:
  assumes "init readdirSync config = Inr F"
  shows "(disjoint_registries F \<longleftrightarrow>
            (\<forall>k. k \<noteq> ''__proto__'' \<longrightarrow>
                 \<not> (k @ ''.csl'' \<in> set (cslDir F) \<and> k @ ''.csl'' \<in> set (cslDependentDir F))))
         \<and> (disjoint_registries F \<longrightarrow>
               (\<forall>ops. disjoint_registries (run parse linkEls F ops)))"
proof
  show "disjoint_registries F \<longleftrightarrow>
          (\<forall>k. k \<noteq> ''__proto__'' \<longrightarrow>
               \<not> (k @ ''.csl'' \<in> set (cslDir F) \<and> k @ ''.csl'' \<in> set (cslDependentDir F)))"
    by (auto simp add: disjoint_registries_def init_fields [OF assms] has_own_recordShortNames)
  show "disjoint_registries F \<longrightarrow> (\<forall>ops. disjoint_registries (run parse linkEls F ops))"
    using run_disjoint [OF init_fields(1) [OF assms]] by blast
qed

theorem init_disjoint_witness:
  "init example_readdir None = Inr example_fetcher
   \<and> disjoint_registries example_fetcher
   \<and> disjoint_registries
        (run url_parse example_linkEls example_fetcher
           [Resolve example_readFile (example_request ''chain''),
            Resolve example_readFile (example_request ''constructor''),
            Fetch example_readFile (example_request ''mla'')])"
proof -
  have d: "disjoint_registries example_fetcher"
    by (auto simp add: disjoint_registries_def has_own_def example_fetcher_def)
  show ?thesis
    using init_disjoint [OF init_example, of url_parse example_linkEls] d
    by (simp add: init_example)
qed

text \<open>
  The claim as stated fails for the listings of the second installation: \<open>init\<close>
  succeeds and \<open>apa\<close> is recorded in both hashes.
\<close>

theorem init_disjoint_counterexample:
  "init overlap_readdir None = Inr overlap_fetcher
   \<and> has_own (cslShortNames overlap_fetcher) ''apa''
   \<and> has_own (cslDependentShortNames overlap_fetcher) ''apa''
   \<and> \<not> disjoint_registries overlap_fetcher"
proof -
  have i: "init overlap_readdir None = Inr overlap_fetcher"
    by (simp add: init_def overlap_readdir_def default_config_def overlap_fetcher_def
          substr_neg4_def slice_0_neg4_def js_set_def)
  have a: "has_own (cslShortNames overlap_fetcher) ''apa''"
    by (simp add: overlap_fetcher_def has_own_def)
  have b: "has_own (cslDependentShortNames overlap_fetcher) ''apa''"
    by (simp add: overlap_fetcher_def has_own_def)
  from a b have "\<not> disjoint_registries overlap_fetcher"
    unfolding disjoint_registries_def by blast
  with i a b show ?thesis by simp
qed

end
